theory Spec2Isabelle
  imports Main
begin

section \<open>Data model\<close>

text \<open>
  The two source files \<^verbatim>\<open>Accordion.tsx\<close> and \<^verbatim>\<open>Accordion2.tsx\<close> each define a component
  with two pieces of local state (\<^verbatim>\<open>hydrated\<close> and \<^verbatim>\<open>expandedSectionIds\<close>) and side effects on
  \<^verbatim>\<open>window.sessionStorage\<close>. The embedding passes both explicitly: a handler takes the pair
  of component state and storage and returns the updated pair.

  \<^verbatim>\<open>AccordionChild\<close> (an element, a fragment or a string) is opaque to the logic and is a
  string here, except for the children of \<^verbatim>\<open>Accordion2\<close> and of its elements, which are
  trees of nodes since the component reads and renders them. An optional boolean property is a \<open>bool option\<close>; \<open>None\<close> is
  \<^verbatim>\<open>undefined\<close>.
\<close>

type_synonym AccordionChild = string

record AccordionItem =
  item_heading :: AccordionChild
  item_content :: AccordionChild
  item_id :: string
  item_defaultExpanded :: "bool option"

text \<open>
  The props of an element, read at the declared type \<^verbatim>\<open>AccordionItemProps\<close>. The
  \<^verbatim>\<open>children\<close> prop is not a field here: it is the list of nodes the element holds, below.
\<close>

record AccordionItemProps =
  props_heading :: AccordionChild
  props_id :: string
  props_defaultExpanded :: "bool option"

text \<open>
  What an element is an element of: \<^verbatim>\<open>Accordion2Item\<close>, or anything else (a host element
  such as a \<^verbatim>\<open>div\<close>, a wrapper that passes its children through), which renders the nodes
  it holds in place. Every element carries props of the declared type; an element with no
  \<^verbatim>\<open>id\<close> prop at all, such as a bare fragment, is outside that type and outside this model.
\<close>

datatype element_type = Accordion2ItemType | OtherType

text \<open>
  A node of the tree handed to \<^verbatim>\<open>Accordion2\<close>: an element with its type, its props and its
  \<^verbatim>\<open>children\<close>, or a text node. \<^verbatim>\<open>isValidElement\<close> accepts every element, whatever its
  type, and rejects text.
\<close>

datatype react_node =
  ReactElement element_type AccordionItemProps "react_node list"
| ReactText string

text \<open>
  Session storage: \<^verbatim>\<open>getItem\<close> returns \<^verbatim>\<open>null\<close> (\<open>None\<close>) for an absent key, \<^verbatim>\<open>setItem\<close>
  overwrites.
\<close>

type_synonym sessionStorage = "string \<rightharpoonup> string"

text \<open>The template literal \<^verbatim>\<open>`moduk.accordion.${id}.expanded`\<close>.\<close>

definition storageKey :: "string \<Rightarrow> string" where
  "storageKey sectionId = ''moduk.accordion.'' @ sectionId @ ''.expanded''"

text \<open>JavaScript truthiness of an optional boolean, as \<^verbatim>\<open>filter\<close> reads its callback's result.\<close>

fun truthy :: "bool option \<Rightarrow> bool" where
  "truthy None = False"
| "truthy (Some b) = b"

record component_state =
  hydrated :: bool
  expandedSectionIds :: "string set"

type_synonym world = "component_state \<times> sessionStorage"

section \<open>What is rendered\<close>

text \<open>
  The heading of a section is either the static span or the toggle button. The button keeps
  its ARIA attributes, its label and the arguments its \<^verbatim>\<open>onClick\<close> passes to the toggle
  handler.
\<close>

datatype heading_view =
  StaticSpan string AccordionChild
| ToggleButton string bool string string "string \<times> bool"

fun isStatic :: "heading_view \<Rightarrow> bool" where
  "isStatic (StaticSpan headingId children) = True"
| "isStatic (ToggleButton controls expanded label toggleLabel onClick) = False"

fun buttonOnClick :: "heading_view \<Rightarrow> (string \<times> bool) option" where
  "buttonOnClick (StaticSpan headingId children) = None"
| "buttonOnClick (ToggleButton controls expanded label toggleLabel onClick) = Some onClick"

text \<open>The show-all button: \<^verbatim>\<open>aria-expanded\<close> and its text.\<close>

datatype controls_view = ShowAllButton bool string

record section_view =
  section_expanded_class :: bool
  section_heading :: heading_view
  section_content_id :: string
  section_labelledby :: string

datatype child_view = SectionView section_view | TextView string

record accordion_view =
  view_controls :: "controls_view option"
  view_children :: "child_view list"

text \<open>
  The content \<^verbatim>\<open>div\<close> of a section, as far as the effect of the section touches it: the
  \<^verbatim>\<open>hidden\<close> attribute and the \<^verbatim>\<open>beforematch\<close> listener, which is kept as the arguments
  the listener passes to the toggle handler.
\<close>

record content_element =
  attr_hidden :: "string option"
  beforematch_listener :: "(string \<times> bool) option"

definition newElement :: content_element where
  "newElement = \<lparr>attr_hidden = None, beforematch_listener = None\<rparr>"

text \<open>The cleanup function an effect returns: \<^verbatim>\<open>removeEventListener\<close>.\<close>

definition effectCleanup :: "content_element \<Rightarrow> content_element" where
  "effectCleanup element = element\<lparr>beforematch_listener := None\<rparr>"

text \<open>
  What can happen to a component: its effects run after the first client render, a section
  button is clicked, the browser's in-page search fires \<^verbatim>\<open>beforematch\<close> on a content
  element, the show-all button is clicked. The string names the section by its id.
\<close>

datatype event = Mount | SectionButtonClick string | BeforeMatch string | ShowAllClick

section \<open>Accordion.tsx\<close>

definition AccordionControls :: "bool \<Rightarrow> bool \<Rightarrow> controls_view option" where
  "AccordionControls expanded hydr =
     (if \<not> hydr then None
      else Some (ShowAllButton expanded ((if expanded then ''Hide'' else ''Show'') @ '' all sections'')))"

definition AccordionHeadingButton ::
  "string \<Rightarrow> string \<Rightarrow> bool \<Rightarrow> bool \<Rightarrow> AccordionChild \<Rightarrow> heading_view" where
  "AccordionHeadingButton sectionId headingId expanded hydr children =
     (if \<not> hydr then StaticSpan headingId children
      else
        (let toggleLabel = (if expanded then ''Hide'' else ''Show'')
         in ToggleButton sectionId expanded
              (children @ '' , '' @ toggleLabel @ '' this section'')
              toggleLabel
              (sectionId, \<not> expanded)))"

text \<open>
  The effect of \<^verbatim>\<open>AccordionSection\<close>, with dependency \<^verbatim>\<open>[expanded]\<close>. \<open>None\<close> is a
  \<^verbatim>\<open>ref.current\<close> that is \<^verbatim>\<open>null\<close>.
\<close>

definition AccordionSection_effect ::
  "AccordionItem \<Rightarrow> bool \<Rightarrow> content_element option \<Rightarrow> content_element option" where
  "AccordionSection_effect item expanded ref =
     (case ref of
        None \<Rightarrow> None
      | Some element \<Rightarrow>
          (if expanded then Some (element\<lparr>attr_hidden := None\<rparr>)
           else Some (element\<lparr>beforematch_listener := Some (item_id item, True),
                               attr_hidden := Some ''until-found''\<rparr>)))"

definition AccordionSection ::
  "bool \<Rightarrow> string \<Rightarrow> bool \<Rightarrow> AccordionItem \<Rightarrow> section_view" where
  "AccordionSection expanded headingId hydr item =
     \<lparr>section_expanded_class = expanded,
      section_heading =
        AccordionHeadingButton (item_id item) headingId expanded hydr (item_heading item),
      section_content_id = item_id item,
      section_labelledby = headingId\<rparr>"

text \<open>\<^verbatim>\<open>useState(new Set())\<close> and \<^verbatim>\<open>useState(false)\<close>: the state of the first render.\<close>

definition Accordion_initial :: "AccordionItem list \<Rightarrow> component_state" where
  "Accordion_initial items = \<lparr>hydrated = False, expandedSectionIds = {}\<rparr>"

text \<open>The set the reconciliation effect builds from storage and the hints.\<close>

definition Accordion_reconciled :: "AccordionItem list \<Rightarrow> sessionStorage \<Rightarrow> string set" where
  "Accordion_reconciled items storage =
     set (map item_id
       (filter (\<lambda>item.
          (case storage (storageKey (item_id item)) of
             Some sessionState \<Rightarrow> sessionState = ''1''
           | None \<Rightarrow> truthy (item_defaultExpanded item)))
        items))"

text \<open>
  The effects of the component, run after a render of state \<open>c\<close>: \<^verbatim>\<open>useIsHydrated\<close> sets
  \<^verbatim>\<open>hydrated\<close>; the reconciliation effect reads the \<^verbatim>\<open>hydrated\<close> of the render it belongs
  to, returns at once when that is true and replaces the set otherwise. Its second run,
  after \<^verbatim>\<open>hydrated\<close> has changed, is the case \<open>hydrated c\<close>.
\<close>

definition Accordion_effects ::
  "AccordionItem list \<Rightarrow> sessionStorage \<Rightarrow> component_state \<Rightarrow> component_state" where
  "Accordion_effects items storage c =
     (let c1 = c\<lparr>hydrated := True\<rparr>
      in if hydrated c then c1
         else c1\<lparr>expandedSectionIds := Accordion_reconciled items storage\<rparr>)"

definition saveSectionExpandedState :: "string \<Rightarrow> bool \<Rightarrow> sessionStorage \<Rightarrow> sessionStorage" where
  "saveSectionExpandedState sectionId expanded storage =
     storage(storageKey sectionId \<mapsto> (if expanded then ''1'' else ''0''))"

text \<open>\<^verbatim>\<open>items.forEach\<close>, in the order of the array.\<close>

definition saveAllSectionExpandedState ::
  "AccordionItem list \<Rightarrow> bool \<Rightarrow> sessionStorage \<Rightarrow> sessionStorage" where
  "saveAllSectionExpandedState items expanded storage =
     foldl (\<lambda>s item. s(storageKey (item_id item) \<mapsto> (if expanded then ''1'' else ''0'')))
       storage items"

definition allExpanded :: "AccordionItem list \<Rightarrow> component_state \<Rightarrow> bool" where
  "allExpanded items c = list_all (\<lambda>item. item_id item \<in> expandedSectionIds c) items"

fun handleShowAllClick :: "AccordionItem list \<Rightarrow> world \<Rightarrow> world" where
  "handleShowAllClick items (c, storage) =
     (if allExpanded items c
      then (c\<lparr>expandedSectionIds := {}\<rparr>, saveAllSectionExpandedState items False storage)
      else (c\<lparr>expandedSectionIds := set (map item_id items)\<rparr>,
            saveAllSectionExpandedState items True storage))"

fun setSectionExpandedState :: "string \<Rightarrow> bool \<Rightarrow> world \<Rightarrow> world" where
  "setSectionExpandedState sid expanded (c, storage) =
     (c\<lparr>expandedSectionIds :=
          (if expanded then insert sid (expandedSectionIds c)
           else expandedSectionIds c - {sid})\<rparr>,
      saveSectionExpandedState sid expanded storage)"

definition Accordion_render :: "AccordionItem list \<Rightarrow> component_state \<Rightarrow> accordion_view" where
  "Accordion_render items c =
     \<lparr>view_controls = AccordionControls (allExpanded items c) (hydrated c),
      view_children =
        map (\<lambda>item. SectionView
               (AccordionSection (item_id item \<in> expandedSectionIds c)
                  (item_id item @ ''-heading'') (hydrated c) item))
          items\<rparr>"

text \<open>
  The content element of a section over the renders of the section. An effect run is preceded
  by the cleanup its previous run returned, if it returned one; the flag says whether it did.
\<close>

type_synonym effect_state = "content_element option \<times> bool"

definition AccordionSection_commit :: "AccordionItem \<Rightarrow> effect_state \<Rightarrow> bool \<Rightarrow> effect_state" where
  "AccordionSection_commit item es expanded =
     (let ref = (if snd es then map_option effectCleanup (fst es) else fst es)
      in (AccordionSection_effect item expanded ref, ref \<noteq> None \<and> \<not> expanded))"

text \<open>
  The \<^verbatim>\<open>beforematch\<close> listener on the content element of the section with id \<open>sid\<close>.
  Effects have run exactly when \<^verbatim>\<open>hydrated\<close> is set, since \<open>Mount\<close> runs all of them; the
  effect of a section has last run with the current \<^verbatim>\<open>expanded\<close>, its dependency.
\<close>

definition Accordion_listener ::
  "AccordionItem list \<Rightarrow> component_state \<Rightarrow> string \<Rightarrow> (string \<times> bool) option" where
  "Accordion_listener items c sid =
     (if \<not> hydrated c then None
      else
        (case find (\<lambda>item. item_id item = sid) items of
           None \<Rightarrow> None
         | Some item \<Rightarrow>
             (case fst (AccordionSection_commit item (Some newElement, False)
                          (item_id item \<in> expandedSectionIds c)) of
                None \<Rightarrow> None
              | Some element \<Rightarrow> beforematch_listener element)))"

fun viewSection :: "child_view \<Rightarrow> section_view option" where
  "viewSection (SectionView sv) = Some sv"
| "viewSection (TextView s) = None"

text \<open>The \<^verbatim>\<open>onClick\<close> of the button rendered for section \<open>sid\<close>, if there is such a button.\<close>

definition clickTarget :: "accordion_view \<Rightarrow> string \<Rightarrow> (string \<times> bool) option" where
  "clickTarget view sid =
     (case find (\<lambda>sv. section_content_id sv = sid)
             (List.map_filter viewSection (view_children view)) of
        None \<Rightarrow> None
      | Some sv \<Rightarrow> buttonOnClick (section_heading sv))"

text \<open>
  One event on the component. An event on something that is not rendered or not attached
  cannot happen and leaves the state as it is.
\<close>

fun Accordion_step :: "AccordionItem list \<Rightarrow> world \<Rightarrow> event \<Rightarrow> world" where
  "Accordion_step items (c, storage) Mount = (Accordion_effects items storage c, storage)"
| "Accordion_step items (c, storage) (SectionButtonClick sid) =
     (case clickTarget (Accordion_render items c) sid of
        None \<Rightarrow> (c, storage)
      | Some (i, e) \<Rightarrow> setSectionExpandedState i e (c, storage))"
| "Accordion_step items (c, storage) (BeforeMatch sid) =
     (case Accordion_listener items c sid of
        None \<Rightarrow> (c, storage)
      | Some (i, e) \<Rightarrow> setSectionExpandedState i e (c, storage))"
| "Accordion_step items (c, storage) ShowAllClick =
     (case view_controls (Accordion_render items c) of
        None \<Rightarrow> (c, storage)
      | Some button \<Rightarrow> handleShowAllClick items (c, storage))"

definition Accordion_run :: "AccordionItem list \<Rightarrow> world \<Rightarrow> event list \<Rightarrow> world" where
  "Accordion_run items w evs = foldl (Accordion_step items) w evs"

section \<open>Accordion2.tsx\<close>

text \<open>
  \<^verbatim>\<open>Children.toArray(children).filter(isValidElement)\<close>, each element read through its
  \<^verbatim>\<open>props\<close>, the only way the component reads it.
\<close>

fun validElementProps :: "react_node \<Rightarrow> AccordionItemProps option" where
  "validElementProps (ReactElement elementType props children) = Some props"
| "validElementProps (ReactText s) = None"

definition validChildren :: "react_node list \<Rightarrow> AccordionItemProps list" where
  "validChildren children = List.map_filter validElementProps children"

text \<open>Here the controls take no \<^verbatim>\<open>hydrated\<close>; the component renders them only when hydrated.\<close>

definition AccordionControls2 :: "bool \<Rightarrow> controls_view" where
  "AccordionControls2 expanded =
     ShowAllButton expanded ((if expanded then ''Hide'' else ''Show'') @ '' all sections'')"

text \<open>
  The context value the provider supplies holds the component's \<^verbatim>\<open>expandedSectionIds\<close> and
  \<^verbatim>\<open>hydrated\<close> (and the handler), so a \<open>component_state\<close> stands for it.
\<close>

text \<open>
  The template literal \<^verbatim>\<open>`${children}`\<close> of the label turns the children into a string:
  a text node is its text, an element is \<^verbatim>\<open>[object Object]\<close>, several children are joined
  by commas, and no children at all read \<^verbatim>\<open>undefined\<close>.
\<close>

fun nodeString :: "react_node \<Rightarrow> string" where
  "nodeString (ReactElement elementType props children) = ''[object Object]''"
| "nodeString (ReactText s) = s"

fun childrenString :: "react_node list \<Rightarrow> string" where
  "childrenString [] = ''undefined''"
| "childrenString (child # rest) =
     foldl (\<lambda>joined node. joined @ '','' @ nodeString node) (nodeString child) rest"

text \<open>
  The heading keeps the string form of the children it is given; the sections among those
  children are rendered by \<open>renderChild\<close> below.
\<close>

definition AccordionHeadingButton2 ::
  "string \<Rightarrow> string \<Rightarrow> bool \<Rightarrow> react_node list \<Rightarrow> component_state \<Rightarrow> heading_view" where
  "AccordionHeadingButton2 contentId headingId expanded children accordionContext =
     (if \<not> hydrated accordionContext then StaticSpan headingId (childrenString children)
      else
        (let toggleLabel = (if expanded then ''Hide'' else ''Show'')
         in ToggleButton contentId expanded
              (childrenString children @ '' , '' @ toggleLabel @ '' this section'')
              toggleLabel
              (contentId, \<not> expanded)))"

definition Accordion2Item_effect ::
  "AccordionItemProps \<Rightarrow> bool \<Rightarrow> content_element option \<Rightarrow> content_element option" where
  "Accordion2Item_effect props expanded ref =
     (case ref of
        None \<Rightarrow> None
      | Some element \<Rightarrow>
          (if expanded then Some (element\<lparr>attr_hidden := None\<rparr>)
           else Some (element\<lparr>beforematch_listener := Some (props_id props, True),
                               attr_hidden := Some ''until-found''\<rparr>)))"

definition Accordion2Item_commit ::
  "AccordionItemProps \<Rightarrow> effect_state \<Rightarrow> bool \<Rightarrow> effect_state" where
  "Accordion2Item_commit props es expanded =
     (let ref = (if snd es then map_option effectCleanup (fst es) else fst es)
      in (Accordion2Item_effect props expanded ref, ref \<noteq> None \<and> \<not> expanded))"

text \<open>
  The heading button is given \<^verbatim>\<open>children\<close>, as in the source, not \<^verbatim>\<open>heading\<close>. The
  second argument is the \<^verbatim>\<open>children\<close> prop of the item.
\<close>

definition Accordion2Item ::
  "AccordionItemProps \<Rightarrow> react_node list \<Rightarrow> component_state \<Rightarrow> section_view" where
  "Accordion2Item props children accordionContext =
     (let expanded = props_id props \<in> expandedSectionIds accordionContext
      in \<lparr>section_expanded_class = expanded,
          section_heading =
            AccordionHeadingButton2 (props_id props) (props_id props @ ''-heading'') expanded
              children accordionContext,
          section_content_id = props_id props,
          section_labelledby = props_id props @ ''-heading''\<rparr>)"

definition Accordion2_initial :: "react_node list \<Rightarrow> component_state" where
  "Accordion2_initial children =
     \<lparr>hydrated = False,
      expandedSectionIds =
        set (map props_id
          (filter (\<lambda>child. truthy (props_defaultExpanded child)) (validChildren children)))\<rparr>"

definition Accordion2_reconciled :: "react_node list \<Rightarrow> sessionStorage \<Rightarrow> string set" where
  "Accordion2_reconciled children storage =
     set (map props_id
       (filter (\<lambda>child.
          (case storage (storageKey (props_id child)) of
             Some sessionState \<Rightarrow> sessionState = ''1''
           | None \<Rightarrow> truthy (props_defaultExpanded child)))
        (validChildren children)))"

definition Accordion2_effects ::
  "react_node list \<Rightarrow> sessionStorage \<Rightarrow> component_state \<Rightarrow> component_state" where
  "Accordion2_effects children storage c =
     (let c1 = c\<lparr>hydrated := True\<rparr>
      in if hydrated c then c1
         else c1\<lparr>expandedSectionIds := Accordion2_reconciled children storage\<rparr>)"

definition saveSectionExpandedState2 :: "string \<Rightarrow> bool \<Rightarrow> sessionStorage \<Rightarrow> sessionStorage" where
  "saveSectionExpandedState2 sectionId expanded storage =
     storage(storageKey sectionId \<mapsto> (if expanded then ''1'' else ''0''))"

definition saveAllSectionExpandedState2 ::
  "react_node list \<Rightarrow> bool \<Rightarrow> sessionStorage \<Rightarrow> sessionStorage" where
  "saveAllSectionExpandedState2 children expanded storage =
     foldl (\<lambda>s child. s(storageKey (props_id child) \<mapsto> (if expanded then ''1'' else ''0'')))
       storage (validChildren children)"

definition allExpanded2 :: "react_node list \<Rightarrow> component_state \<Rightarrow> bool" where
  "allExpanded2 children c =
     list_all (\<lambda>child. props_id child \<in> expandedSectionIds c) (validChildren children)"

text \<open>Here the flags are written first, with \<^verbatim>\<open>!allExpanded\<close>, and the set is replaced after.\<close>

fun handleShowAllClick2 :: "react_node list \<Rightarrow> world \<Rightarrow> world" where
  "handleShowAllClick2 children (c, storage) =
     (let storage' = saveAllSectionExpandedState2 children (\<not> allExpanded2 children c) storage
      in if allExpanded2 children c then (c\<lparr>expandedSectionIds := {}\<rparr>, storage')
         else (c\<lparr>expandedSectionIds := set (map props_id (validChildren children))\<rparr>, storage'))"

fun setSectionState :: "string \<Rightarrow> bool \<Rightarrow> world \<Rightarrow> world" where
  "setSectionState sectionId expanded (c, storage) =
     (c\<lparr>expandedSectionIds :=
          (if expanded then insert sectionId (expandedSectionIds c)
           else expandedSectionIds c - {sectionId})\<rparr>,
      saveSectionExpandedState2 sectionId expanded storage)"

text \<open>
  The component renders \<^verbatim>\<open>{children}\<close> as they are, inside the provider, so every
  \<^verbatim>\<open>Accordion2Item\<close> of the tree reads the context, at whatever depth. The rendered nodes are
  listed in document order: an \<^verbatim>\<open>Accordion2Item\<close> is its section, followed by what its
  children render, twice, since the item places \<^verbatim>\<open>{children}\<close> both in its heading and in its
  content; any other element is what its children render.
\<close>

fun renderChild :: "component_state \<Rightarrow> react_node \<Rightarrow> child_view list" where
  "renderChild accordionContext (ReactElement Accordion2ItemType props children) =
     SectionView (Accordion2Item props children accordionContext)
       # concat (map (renderChild accordionContext) children)
       @ concat (map (renderChild accordionContext) children)"
| "renderChild accordionContext (ReactElement OtherType props children) =
     concat (map (renderChild accordionContext) children)"
| "renderChild accordionContext (ReactText s) = [TextView s]"

definition Accordion2_render :: "react_node list \<Rightarrow> component_state \<Rightarrow> accordion_view" where
  "Accordion2_render children c =
     \<lparr>view_controls =
        (if hydrated c then Some (AccordionControls2 (allExpanded2 children c)) else None),
      view_children = concat (map (renderChild c) children)\<rparr>"

text \<open>
  The props of the \<^verbatim>\<open>Accordion2Item\<close> elements that are rendered, in the same document
  order: the components whose effect runs.
\<close>

fun itemsOf :: "react_node \<Rightarrow> AccordionItemProps list" where
  "itemsOf (ReactElement Accordion2ItemType props children) =
     props # concat (map itemsOf children) @ concat (map itemsOf children)"
| "itemsOf (ReactElement OtherType props children) = concat (map itemsOf children)"
| "itemsOf (ReactText s) = []"

definition renderedItems :: "react_node list \<Rightarrow> AccordionItemProps list" where
  "renderedItems children = concat (map itemsOf children)"

definition Accordion2_listener ::
  "react_node list \<Rightarrow> component_state \<Rightarrow> string \<Rightarrow> (string \<times> bool) option" where
  "Accordion2_listener children c sid =
     (if \<not> hydrated c then None
      else
        (case find (\<lambda>item. props_id item = sid) (renderedItems children) of
           None \<Rightarrow> None
         | Some props \<Rightarrow>
             (case fst (Accordion2Item_commit props (Some newElement, False)
                          (props_id props \<in> expandedSectionIds c)) of
                None \<Rightarrow> None
              | Some element \<Rightarrow> beforematch_listener element)))"

fun Accordion2_step :: "react_node list \<Rightarrow> world \<Rightarrow> event \<Rightarrow> world" where
  "Accordion2_step children (c, storage) Mount = (Accordion2_effects children storage c, storage)"
| "Accordion2_step children (c, storage) (SectionButtonClick sid) =
     (case clickTarget (Accordion2_render children c) sid of
        None \<Rightarrow> (c, storage)
      | Some (i, e) \<Rightarrow> setSectionState i e (c, storage))"
| "Accordion2_step children (c, storage) (BeforeMatch sid) =
     (case Accordion2_listener children c sid of
        None \<Rightarrow> (c, storage)
      | Some (i, e) \<Rightarrow> setSectionState i e (c, storage))"
| "Accordion2_step children (c, storage) ShowAllClick =
     (case view_controls (Accordion2_render children c) of
        None \<Rightarrow> (c, storage)
      | Some button \<Rightarrow> handleShowAllClick2 children (c, storage))"

definition Accordion2_run :: "react_node list \<Rightarrow> world \<Rightarrow> event list \<Rightarrow> world" where
  "Accordion2_run children w evs = foldl (Accordion2_step children) w evs"

section \<open>The two components side by side\<close>

text \<open>
  The sections of an \<^verbatim>\<open>Accordion\<close> and of an \<^verbatim>\<open>Accordion2\<close> are the same when the children
  of the \<^verbatim>\<open>Accordion2\<close> list the same ids, headings and \<^verbatim>\<open>defaultExpanded\<close> hints in the same
  order as the items, both as the valid children the component counts and as the
  \<^verbatim>\<open>Accordion2Item\<close> elements it renders.
\<close>

definition sameSections :: "AccordionItem list \<Rightarrow> react_node list \<Rightarrow> bool" where
  "sameSections items children =
     (map (\<lambda>item. (item_id item, item_heading item, item_defaultExpanded item)) items =
      map (\<lambda>child. (props_id child, props_heading child, props_defaultExpanded child))
        (validChildren children)
      \<and> renderedItems children = validChildren children)"

section \<open>Reading a view and an element\<close>

text \<open>The sections among the rendered children.\<close>

definition viewSections :: "accordion_view \<Rightarrow> section_view list" where
  "viewSections view = List.map_filter viewSection (view_children view)"

text \<open>\<^verbatim>\<open>aria-expanded\<close> of a heading: only the button has one.\<close>

fun ariaExpanded :: "heading_view \<Rightarrow> bool option" where
  "ariaExpanded (StaticSpan headingId children) = None"
| "ariaExpanded (ToggleButton controls expanded label toggleLabel onClick) = Some expanded"

text \<open>
  The content element of a section after its effect has run for each value of
  \<^verbatim>\<open>expanded\<close> in \<open>history\<close>, oldest first, starting from the element as it is created.
\<close>

definition AccordionSection_element :: "AccordionItem \<Rightarrow> bool list \<Rightarrow> effect_state" where
  "AccordionSection_element item history =
     foldl (AccordionSection_commit item) (Some newElement, False) history"

definition Accordion2Item_element :: "AccordionItemProps \<Rightarrow> bool list \<Rightarrow> effect_state" where
  "Accordion2Item_element props history =
     foldl (Accordion2Item_commit props) (Some newElement, False) history"

fun listenerOf :: "effect_state \<Rightarrow> (string \<times> bool) option" where
  "listenerOf (None, cleanup) = None"
| "listenerOf (Some element, cleanup) = beforematch_listener element"

fun hiddenOf :: "effect_state \<Rightarrow> string option" where
  "hiddenOf (None, cleanup) = None"
| "hiddenOf (Some element, cleanup) = attr_hidden element"

section \<open>Sample inputs\<close>

text \<open>
  Two sections, one of them expanded by default, as an \<^verbatim>\<open>items\<close> array and as children,
  and a storage that holds a flag for the second section. Then a second item that reuses
  the id of the first with no hint, a \<^verbatim>\<open>div\<close> that is a child but no section, and a wrapper
  that holds the first section one level down.
\<close>

abbreviation itemA :: AccordionItem where
  "itemA \<equiv> \<lparr>item_heading = ''Alpha'', item_content = ''One'', item_id = ''a'',
              item_defaultExpanded = Some True\<rparr>"

abbreviation itemB :: AccordionItem where
  "itemB \<equiv> \<lparr>item_heading = ''Beta'', item_content = ''Two'', item_id = ''b'',
              item_defaultExpanded = None\<rparr>"

abbreviation childA :: react_node where
  "childA \<equiv> ReactElement Accordion2ItemType
              \<lparr>props_heading = ''Alpha'', props_id = ''a'', props_defaultExpanded = Some True\<rparr>
              [ReactText ''One'']"

abbreviation childB :: react_node where
  "childB \<equiv> ReactElement Accordion2ItemType
              \<lparr>props_heading = ''Beta'', props_id = ''b'', props_defaultExpanded = None\<rparr>
              [ReactText ''Two'']"

abbreviation itemA2 :: AccordionItem where
  "itemA2 \<equiv> \<lparr>item_heading = ''Again'', item_content = ''Three'', item_id = ''a'',
               item_defaultExpanded = None\<rparr>"

abbreviation childA2 :: react_node where
  "childA2 \<equiv> ReactElement Accordion2ItemType
               \<lparr>props_heading = ''Again'', props_id = ''a'', props_defaultExpanded = None\<rparr>
               [ReactText ''Three'']"

abbreviation itemX :: AccordionItem where
  "itemX \<equiv> \<lparr>item_heading = ''Extra'', item_content = ''Four'', item_id = ''x'',
              item_defaultExpanded = None\<rparr>"

abbreviation divX :: react_node where
  "divX \<equiv> ReactElement OtherType
             \<lparr>props_heading = ''Extra'', props_id = ''x'', props_defaultExpanded = None\<rparr>
             [ReactText ''Four'']"

abbreviation wrapperW :: react_node where
  "wrapperW \<equiv> ReactElement OtherType
                 \<lparr>props_heading = ''Wrap'', props_id = ''w'', props_defaultExpanded = None\<rparr>
                 [childA]"

abbreviation storedB :: sessionStorage where
  "storedB \<equiv> [storageKey ''b'' \<mapsto> ''1'']"

abbreviation hydratedWith :: "string set \<Rightarrow> component_state" where
  "hydratedWith ids \<equiv> \<lparr>hydrated = True, expandedSectionIds = ids\<rparr>"

section \<open>Storage keys and storage writes\<close>

lemma storageKey_inj: "(storageKey a = storageKey b) = (a = b)"
  by (simp add: storageKey_def)

lemma foldl_setItem:
  "foldl (\<lambda>s x. s(k x \<mapsto> v)) storage xs key =
     (if key \<in> k ` set xs then Some v else storage key)"
  by (induction xs arbitrary: storage) auto

lemma saveAll_lookup:
  "saveAllSectionExpandedState items e storage key =
     (if key \<in> storageKey ` item_id ` set items then Some (if e then ''1'' else ''0'')
      else storage key)"
  unfolding saveAllSectionExpandedState_def
  by (simp add: foldl_setItem [where k = "\<lambda>item. storageKey (item_id item)"] image_image)

lemma saveAll2_lookup:
  "saveAllSectionExpandedState2 children e storage key =
     (if key \<in> storageKey ` props_id ` set (validChildren children)
      then Some (if e then ''1'' else ''0'')
      else storage key)"
  unfolding saveAllSectionExpandedState2_def
  by (simp add: foldl_setItem [where k = "\<lambda>child. storageKey (props_id child)"] image_image)

section \<open>Which handlers are reachable from a render\<close>

lemma find_map_sections:
  "find (\<lambda>sv. g sv = sid) (map f xs) = map_option f (find (\<lambda>x. g (f x) = sid) xs)"
  by (induction xs) auto

lemma find_id_some:
  "find (\<lambda>x. g x = sid) xs = Some y \<Longrightarrow> g y = sid \<and> y \<in> set xs"
  by (induction xs) (auto split: if_splits)

lemma find_id_none:
  "(find (\<lambda>x. g x = sid) xs = None) = (sid \<notin> g ` set xs)"
  by (induction xs) auto

lemma viewSections_Accordion:
  "viewSections (Accordion_render items c) =
     map (\<lambda>item. AccordionSection (item_id item \<in> expandedSectionIds c)
                    (item_id item @ ''-heading'') (hydrated c) item) items"
  by (induction items) (auto simp: viewSections_def Accordion_render_def)

lemma map_filter_append:
  "List.map_filter f (xs @ ys) = List.map_filter f xs @ List.map_filter f ys"
  by (simp add: List.map_filter_def)

lemma map_filter_concat:
  "List.map_filter f (concat xss) = concat (map (List.map_filter f) xss)"
  by (induction xss) (simp_all add: map_filter_append)

lemma set_map_filter:
  "(y \<in> set (List.map_filter f xs)) = (\<exists>x \<in> set xs. f x = Some y)"
  by (induction xs) (auto split: option.splits)

lemma renderChild_section_ids:
  "map section_content_id (List.map_filter viewSection (renderChild c node))
     = map props_id (itemsOf node)"
proof (induction node)
  case (ReactElement elementType props children)
  then have eq: "map (\<lambda>n. map section_content_id (List.map_filter viewSection (renderChild c n)))
               children = map (\<lambda>n. map props_id (itemsOf n)) children"
    by simp
  show ?case
    by (cases elementType)
       (simp_all add: map_filter_append map_filter_concat map_concat comp_def eq
          Accordion2Item_def Let_def)
next
  case (ReactText s)
  show ?case by simp
qed

lemma renderChild_section_items:
  "sv \<in> set (List.map_filter viewSection (renderChild c node)) \<Longrightarrow>
     \<exists>props children. sv = Accordion2Item props children c"
proof (induction node)
  case (ReactElement elementType props children)
  then show ?case
    by (cases elementType) (auto simp: map_filter_append map_filter_concat)
next
  case (ReactText s)
  then show ?case by simp
qed

lemma viewSections_Accordion2_ids:
  "map section_content_id (viewSections (Accordion2_render children c))
     = map props_id (renderedItems children)"
  by (simp add: viewSections_def Accordion2_render_def renderedItems_def map_filter_concat
      map_concat comp_def renderChild_section_ids)

lemma viewSections_Accordion2_items:
  "sv \<in> set (viewSections (Accordion2_render children c)) \<Longrightarrow>
     \<exists>props kids. sv = Accordion2Item props kids c"
  by (auto simp: viewSections_def Accordion2_render_def map_filter_concat
      dest: renderChild_section_items)


lemma clickTarget_Accordion:
  "clickTarget (Accordion_render items c) sid =
     (if hydrated c \<and> sid \<in> item_id ` set items
      then Some (sid, sid \<notin> expandedSectionIds c) else None)"
proof (cases "find (\<lambda>item. item_id item = sid) items")
  case None
  then show ?thesis
    using find_id_none [of item_id sid items] viewSections_Accordion [of items c]
    by (simp add: clickTarget_def viewSections_def find_map_sections AccordionSection_def)
next
  case (Some item)
  then have "item_id item = sid" "item \<in> set items"
    using find_id_some [of item_id sid items item] by auto
  with Some show ?thesis
    using viewSections_Accordion [of items c]
    by (auto simp: clickTarget_def viewSections_def find_map_sections AccordionSection_def
        AccordionHeadingButton_def Let_def)
qed

lemma clickTarget_Accordion2:
  "clickTarget (Accordion2_render children c) sid =
     (if hydrated c \<and> sid \<in> props_id ` set (renderedItems children)
      then Some (sid, sid \<notin> expandedSectionIds c) else None)"
proof (cases "find (\<lambda>sv. section_content_id sv = sid)
                (viewSections (Accordion2_render children c))")
  case None
  then have "sid \<notin> set (map section_content_id (viewSections (Accordion2_render children c)))"
    using find_id_none [of section_content_id sid "viewSections (Accordion2_render children c)"]
    by simp
  then have "sid \<notin> props_id ` set (renderedItems children)"
    by (simp add: viewSections_Accordion2_ids)
  with None show ?thesis
    by (simp add: clickTarget_def viewSections_def)
next
  case (Some sv)
  then have sv: "section_content_id sv = sid"
    and m: "sv \<in> set (viewSections (Accordion2_render children c))"
    using find_id_some [of section_content_id sid _ sv] by auto
  from m have "sid \<in> set (map section_content_id (viewSections (Accordion2_render children c)))"
    using sv by force
  then have r: "sid \<in> props_id ` set (renderedItems children)"
    by (simp add: viewSections_Accordion2_ids)
  from viewSections_Accordion2_items [OF m]
  obtain props kids where "sv = Accordion2Item props kids c" by blast
  with sv have "buttonOnClick (section_heading sv) =
                  (if hydrated c then Some (sid, sid \<notin> expandedSectionIds c) else None)"
    by (auto simp: Accordion2Item_def AccordionHeadingButton2_def Let_def)
  with Some r show ?thesis
    by (simp add: clickTarget_def viewSections_def)
qed


lemma listener_Accordion:
  "Accordion_listener items c sid =
     (if hydrated c \<and> sid \<in> item_id ` set items \<and> sid \<notin> expandedSectionIds c
      then Some (sid, True) else None)"
proof (cases "find (\<lambda>item. item_id item = sid) items")
  case None
  then show ?thesis
    using find_id_none [of item_id sid items] by (simp add: Accordion_listener_def)
next
  case (Some item)
  then have "item_id item = sid" "item \<in> set items"
    using find_id_some [of item_id sid items item] by auto
  with Some show ?thesis
    by (auto simp: Accordion_listener_def AccordionSection_commit_def
        AccordionSection_effect_def newElement_def)
qed

lemma listener_Accordion2:
  "Accordion2_listener children c sid =
     (if hydrated c \<and> sid \<in> props_id ` set (renderedItems children)
         \<and> sid \<notin> expandedSectionIds c
      then Some (sid, True) else None)"
proof (cases "find (\<lambda>item. props_id item = sid) (renderedItems children)")
  case None
  then show ?thesis
    using find_id_none [of props_id sid "renderedItems children"]
    by (simp add: Accordion2_listener_def)
next
  case (Some props)
  then have "props_id props = sid" "props \<in> set (renderedItems children)"
    using find_id_some [of props_id sid "renderedItems children" props] by auto
  with Some show ?thesis
    by (auto simp: Accordion2_listener_def Accordion2Item_commit_def
        Accordion2Item_effect_def newElement_def)
qed


section \<open>The reconciled set\<close>

lemma reconciled_iff:
  "(sid \<in> Accordion_reconciled items storage) =
     (\<exists>item \<in> set items. item_id item = sid \<and>
        (storage (storageKey sid) = Some ''1'' \<or>
         storage (storageKey sid) = None \<and> item_defaultExpanded item = Some True))"
proof -
  have p: "(case storage k of Some sessionState \<Rightarrow> sessionState = ''1'' | None \<Rightarrow> truthy d) =
             (storage k = Some ''1'' \<or> storage k = None \<and> d = Some True)" for k d
    by (cases "storage k"; cases d) auto
  show ?thesis
    unfolding Accordion_reconciled_def p by auto
qed

lemma reconciled2_iff:
  "(sid \<in> Accordion2_reconciled children storage) =
     (\<exists>child \<in> set (validChildren children). props_id child = sid \<and>
        (storage (storageKey sid) = Some ''1'' \<or>
         storage (storageKey sid) = None \<and> props_defaultExpanded child = Some True))"
proof -
  have p: "(case storage k of Some sessionState \<Rightarrow> sessionState = ''1'' | None \<Rightarrow> truthy d) =
             (storage k = Some ''1'' \<or> storage k = None \<and> d = Some True)" for k d
    by (cases "storage k"; cases d) auto
  show ?thesis
    unfolding Accordion2_reconciled_def p by auto
qed

lemma distinct_ids_unique:
  "distinct (map f xs) \<Longrightarrow> x \<in> set xs \<Longrightarrow> y \<in> set xs \<Longrightarrow> f x = f y \<Longrightarrow> x = y"
  by (meson distinct_map inj_onD)

lemma reconciled_subset: "Accordion_reconciled items storage \<subseteq> item_id ` set items"
  by (auto simp: Accordion_reconciled_def)

lemma reconciled2_subset:
  "Accordion2_reconciled children storage \<subseteq> props_id ` set (validChildren children)"
  by (auto simp: Accordion2_reconciled_def)


section \<open>The show-all test\<close>

lemma allExpanded_iff:
  "allExpanded items c = (item_id ` set items \<subseteq> expandedSectionIds c)"
  by (auto simp: allExpanded_def list_all_iff)

lemma allExpanded2_iff:
  "allExpanded2 children c = (props_id ` set (validChildren children) \<subseteq> expandedSectionIds c)"
  by (auto simp: allExpanded2_def list_all_iff)


section \<open>The content element over the renders of a section\<close>

lemma AccordionSection_commit_element:
  "fst es \<noteq> None \<Longrightarrow> (snd es \<or> listenerOf es = None) \<Longrightarrow>
     fst (AccordionSection_commit item es expanded) \<noteq> None
     \<and> snd (AccordionSection_commit item es expanded) = (\<not> expanded)
     \<and> listenerOf (AccordionSection_commit item es expanded)
         = (if expanded then None else Some (item_id item, True))
     \<and> hiddenOf (AccordionSection_commit item es expanded)
         = (if expanded then None else Some ''until-found'')"
  by (cases es; cases "fst es")
     (auto simp: AccordionSection_commit_def AccordionSection_effect_def effectCleanup_def)

lemma Accordion2Item_commit_element:
  "fst es \<noteq> None \<Longrightarrow> (snd es \<or> listenerOf es = None) \<Longrightarrow>
     fst (Accordion2Item_commit props es expanded) \<noteq> None
     \<and> snd (Accordion2Item_commit props es expanded) = (\<not> expanded)
     \<and> listenerOf (Accordion2Item_commit props es expanded)
         = (if expanded then None else Some (props_id props, True))
     \<and> hiddenOf (Accordion2Item_commit props es expanded)
         = (if expanded then None else Some ''until-found'')"
  by (cases es; cases "fst es")
     (auto simp: Accordion2Item_commit_def Accordion2Item_effect_def effectCleanup_def)

lemma AccordionSection_element_inv:
  "fst (AccordionSection_element item history) \<noteq> None
   \<and> (snd (AccordionSection_element item history)
        \<or> listenerOf (AccordionSection_element item history) = None)"
proof (induction history rule: rev_induct)
  case Nil
  show ?case by (simp add: AccordionSection_element_def newElement_def)
next
  case (snoc e es)
  then show ?case
    using AccordionSection_commit_element [of "AccordionSection_element item es" item e]
    by (auto simp: AccordionSection_element_def)
qed

lemma Accordion2Item_element_inv:
  "fst (Accordion2Item_element props history) \<noteq> None
   \<and> (snd (Accordion2Item_element props history)
        \<or> listenerOf (Accordion2Item_element props history) = None)"
proof (induction history rule: rev_induct)
  case Nil
  show ?case by (simp add: Accordion2Item_element_def newElement_def)
next
  case (snoc e es)
  then show ?case
    using Accordion2Item_commit_element [of "Accordion2Item_element props es" props e]
    by (auto simp: Accordion2Item_element_def)
qed

lemma AccordionSection_element_last:
  "listenerOf (AccordionSection_element item (history @ [expanded]))
     = (if expanded then None else Some (item_id item, True))
   \<and> hiddenOf (AccordionSection_element item (history @ [expanded]))
     = (if expanded then None else Some ''until-found'')"
  using AccordionSection_element_inv [of item history]
    AccordionSection_commit_element [of "AccordionSection_element item history" item expanded]
  by (simp add: AccordionSection_element_def)

lemma Accordion2Item_element_last:
  "listenerOf (Accordion2Item_element props (history @ [expanded]))
     = (if expanded then None else Some (props_id props, True))
   \<and> hiddenOf (Accordion2Item_element props (history @ [expanded]))
     = (if expanded then None else Some ''until-found'')"
  using Accordion2Item_element_inv [of props history]
    Accordion2Item_commit_element [of "Accordion2Item_element props history" props expanded]
  by (simp add: Accordion2Item_element_def)


section \<open>The expanded ids stay among the section ids\<close>

lemma Accordion_step_subset:
  assumes "expandedSectionIds (fst w) \<subseteq> item_id ` set items"
  shows "expandedSectionIds (fst (Accordion_step items w ev)) \<subseteq> item_id ` set items"
proof (cases w)
  case (Pair c storage)
  with assms have sub: "expandedSectionIds c \<subseteq> item_id ` set items" by simp
  show ?thesis
  proof (cases ev)
    case Mount
    with Pair sub show ?thesis
      using reconciled_subset [of items storage] by (simp add: Accordion_effects_def Let_def)
  next
    case (SectionButtonClick sid)
    with Pair sub show ?thesis
      by (auto simp: clickTarget_Accordion)
  next
    case (BeforeMatch sid)
    with Pair sub show ?thesis
      by (auto simp: listener_Accordion)
  next
    case ShowAllClick
    with Pair sub show ?thesis
      by (auto split: option.splits)
  qed
qed

lemma Accordion2_step_subset:
  assumes "expandedSectionIds (fst w)
             \<subseteq> props_id ` set (validChildren children) \<union> props_id ` set (renderedItems children)"
  shows "expandedSectionIds (fst (Accordion2_step children w ev))
           \<subseteq> props_id ` set (validChildren children) \<union> props_id ` set (renderedItems children)"
proof (cases w)
  case (Pair c storage)
  with assms have sub: "expandedSectionIds c
      \<subseteq> props_id ` set (validChildren children) \<union> props_id ` set (renderedItems children)"
    by simp
  show ?thesis
  proof (cases ev)
    case Mount
    with Pair sub show ?thesis
      using reconciled2_subset [of children storage]
      by (auto simp: Accordion2_effects_def Let_def)
  next
    case (SectionButtonClick sid)
    with Pair sub show ?thesis
      by (auto simp: clickTarget_Accordion2)
  next
    case (BeforeMatch sid)
    with Pair sub show ?thesis
      by (auto simp: listener_Accordion2)
  next
    case ShowAllClick
    with Pair sub show ?thesis
      by (auto split: option.splits simp: Let_def)
  qed
qed


lemma Accordion_run_subset:
  "expandedSectionIds (fst w) \<subseteq> item_id ` set items \<Longrightarrow>
     expandedSectionIds (fst (Accordion_run items w evs)) \<subseteq> item_id ` set items"
  unfolding Accordion_run_def
  by (induction evs arbitrary: w) (simp_all add: Accordion_step_subset)

lemma Accordion2_run_subset:
  "expandedSectionIds (fst w)
     \<subseteq> props_id ` set (validChildren children) \<union> props_id ` set (renderedItems children) \<Longrightarrow>
   expandedSectionIds (fst (Accordion2_run children w evs))
     \<subseteq> props_id ` set (validChildren children) \<union> props_id ` set (renderedItems children)"
  unfolding Accordion2_run_def
  by (induction evs arbitrary: w) (simp_all add: Accordion2_step_subset)


section \<open>No sections\<close>

lemma Accordion_step_empty:
  "expandedSectionIds c = {} \<Longrightarrow>
     \<exists>c'. Accordion_step [] (c, storage) ev = (c', storage) \<and> expandedSectionIds c' = {}"
  by (cases ev)
     (auto simp: Accordion_effects_def Accordion_reconciled_def clickTarget_Accordion
        listener_Accordion saveAllSectionExpandedState_def allExpanded_def Let_def
        split: option.splits)

lemma Accordion_run_empty:
  "expandedSectionIds c = {} \<Longrightarrow>
     \<exists>c'. Accordion_run [] (c, storage) evs = (c', storage) \<and> expandedSectionIds c' = {}"
proof (induction evs arbitrary: c)
  case Nil
  then show ?case by (simp add: Accordion_run_def)
next
  case (Cons ev evs)
  from Accordion_step_empty [OF Cons.prems, of storage ev]
  obtain c1 where "Accordion_step [] (c, storage) ev = (c1, storage)"
    and "expandedSectionIds c1 = {}" by blast
  with Cons.IH [of c1] show ?case by (simp add: Accordion_run_def)
qed

lemma no_valid_children_no_items:
  "validChildren children = [] \<Longrightarrow> renderedItems children = []"
proof (induction children)
  case Nil
  show ?case by (simp add: renderedItems_def)
next
  case (Cons node nodes)
  then show ?case
    by (cases node) (simp_all add: validChildren_def renderedItems_def)
qed

lemma Accordion2_step_empty:
  "validChildren children = [] \<Longrightarrow> expandedSectionIds c = {} \<Longrightarrow>
     \<exists>c'. Accordion2_step children (c, storage) ev = (c', storage) \<and> expandedSectionIds c' = {}"
  by (cases ev)
     (auto simp: Accordion2_effects_def Accordion2_reconciled_def clickTarget_Accordion2
        listener_Accordion2 saveAllSectionExpandedState2_def allExpanded2_def Let_def
        no_valid_children_no_items
        split: option.splits)


lemma Accordion2_run_empty:
  "validChildren children = [] \<Longrightarrow> expandedSectionIds c = {} \<Longrightarrow>
     \<exists>c'. Accordion2_run children (c, storage) evs = (c', storage) \<and> expandedSectionIds c' = {}"
proof (induction evs arbitrary: c)
  case Nil
  then show ?case by (simp add: Accordion2_run_def)
next
  case (Cons ev evs)
  from Accordion2_step_empty [OF Cons.prems, of storage ev]
  obtain c1 where "Accordion2_step children (c, storage) ev = (c1, storage)"
    and "expandedSectionIds c1 = {}" by blast
  with Cons.IH [of c1] Cons.prems(1) show ?case by (simp add: Accordion2_run_def)
qed


section \<open>Before the effects have run\<close>

lemma controls_Accordion2:
  "view_controls (Accordion2_render children c) =
     (if hydrated c then Some (AccordionControls2 (allExpanded2 children c)) else None)"
  by (simp add: Accordion2_render_def)

lemma controls_unmounted:
  "\<not> hydrated c \<Longrightarrow> view_controls (Accordion_render items c) = None"
  "\<not> hydrated c \<Longrightarrow> view_controls (Accordion2_render children c) = None"
  by (simp_all add: Accordion_render_def AccordionControls_def Accordion2_render_def)

lemma Accordion_step_unmounted:
  "\<not> hydrated c \<Longrightarrow> Mount \<noteq> ev \<Longrightarrow> Accordion_step items (c, storage) ev = (c, storage)"
  by (cases ev) (simp_all add: clickTarget_Accordion listener_Accordion controls_unmounted)

lemma Accordion2_step_unmounted:
  "\<not> hydrated c \<Longrightarrow> Mount \<noteq> ev \<Longrightarrow> Accordion2_step children (c, storage) ev = (c, storage)"
  by (cases ev) (simp_all add: clickTarget_Accordion2 listener_Accordion2 controls_unmounted)

lemma Accordion_run_unmounted:
  "\<not> hydrated c \<Longrightarrow> Mount \<notin> set evs \<Longrightarrow> Accordion_run items (c, storage) evs = (c, storage)"
  unfolding Accordion_run_def
  by (induction evs) (simp_all add: Accordion_step_unmounted)

lemma Accordion2_run_unmounted:
  "\<not> hydrated c \<Longrightarrow> Mount \<notin> set evs \<Longrightarrow>
     Accordion2_run children (c, storage) evs = (c, storage)"
  unfolding Accordion2_run_def
  by (induction evs) (simp_all add: Accordion2_step_unmounted)


section \<open>Same sections, same steps\<close>

lemma map_eq_rel:
  "map f xs = map g ys \<Longrightarrow> list_all2 (\<lambda>x y. f x = g y) xs ys"
proof (induction xs arbitrary: ys)
  case Nil
  then show ?case by simp
next
  case (Cons x xs)
  then show ?case by (cases ys) auto
qed

lemma sameSections_rel:
  assumes "sameSections items children"
  shows "list_all2 (\<lambda>item child. item_id item = props_id child
            \<and> item_defaultExpanded item = props_defaultExpanded child)
           items (validChildren children)"
proof -
  have "map (\<lambda>item. (item_id item, item_heading item, item_defaultExpanded item)) items =
        map (\<lambda>child. (props_id child, props_heading child, props_defaultExpanded child))
          (validChildren children)"
    using assms by (simp add: sameSections_def)
  then have "list_all2 (\<lambda>item child.
          (item_id item, item_heading item, item_defaultExpanded item) =
          (props_id child, props_heading child, props_defaultExpanded child))
        items (validChildren children)"
    by (rule map_eq_rel)
  then show ?thesis
    by (rule list_all2_mono) simp
qed


lemma rel_ids:
  "list_all2 (\<lambda>item child. item_id item = props_id child
      \<and> item_defaultExpanded item = props_defaultExpanded child) xs ys \<Longrightarrow>
   map item_id xs = map props_id ys"
  by (induction xs ys rule: list_all2_induct) auto

lemma rel_defaults:
  "list_all2 (\<lambda>item child. item_id item = props_id child
      \<and> item_defaultExpanded item = props_defaultExpanded child) xs ys \<Longrightarrow>
   map item_id (filter (\<lambda>item. truthy (item_defaultExpanded item)) xs) =
   map props_id (filter (\<lambda>child. truthy (props_defaultExpanded child)) ys)"
  by (induction xs ys rule: list_all2_induct) auto

lemma rel_reconciled:
  "list_all2 (\<lambda>item child. item_id item = props_id child
      \<and> item_defaultExpanded item = props_defaultExpanded child) xs ys \<Longrightarrow>
   map item_id
     (filter (\<lambda>item.
        (case storage (storageKey (item_id item)) of
           Some sessionState \<Rightarrow> sessionState = ''1''
         | None \<Rightarrow> truthy (item_defaultExpanded item))) xs) =
   map props_id
     (filter (\<lambda>child.
        (case storage (storageKey (props_id child)) of
           Some sessionState \<Rightarrow> sessionState = ''1''
         | None \<Rightarrow> truthy (props_defaultExpanded child))) ys)"
  by (induction xs ys rule: list_all2_induct) (auto split: option.splits)

lemma sameSections_ids:
  "sameSections items children \<Longrightarrow> map item_id items = map props_id (validChildren children)"
  by (rule rel_ids [OF sameSections_rel])

lemma sameSections_defaults:
  "sameSections items children \<Longrightarrow>
     map item_id (filter (\<lambda>item. truthy (item_defaultExpanded item)) items) =
     map props_id (filter (\<lambda>child. truthy (props_defaultExpanded child))
       (validChildren children))"
  by (rule rel_defaults [OF sameSections_rel])

lemma sameSections_reconciled:
  "sameSections items children \<Longrightarrow>
     Accordion_reconciled items storage = Accordion2_reconciled children storage"
  unfolding Accordion_reconciled_def Accordion2_reconciled_def
  by (simp only: rel_reconciled [OF sameSections_rel])

lemma sameSections_id_set:
  "sameSections items children \<Longrightarrow> item_id ` set items = props_id ` set (validChildren children)"
  using sameSections_ids [of items children] by (metis set_map)

lemma sameSections_rendered:
  "sameSections items children \<Longrightarrow> renderedItems children = validChildren children"
  by (simp add: sameSections_def)


lemma sameSections_saveAll:
  assumes "sameSections items children"
  shows "saveAllSectionExpandedState items e storage
           = saveAllSectionExpandedState2 children e storage"
proof -
  have "saveAllSectionExpandedState items e storage =
          foldl (\<lambda>s k. s(storageKey k \<mapsto> (if e then ''1'' else ''0''))) storage
            (map item_id items)"
    by (simp add: saveAllSectionExpandedState_def foldl_map)
  also have "\<dots> = foldl (\<lambda>s k. s(storageKey k \<mapsto> (if e then ''1'' else ''0''))) storage
            (map props_id (validChildren children))"
    by (simp add: sameSections_ids [OF assms])
  also have "\<dots> = saveAllSectionExpandedState2 children e storage"
    by (simp add: saveAllSectionExpandedState2_def foldl_map)
  finally show ?thesis .
qed

lemma sameSections_step:
  assumes s: "sameSections items children"
  shows "Accordion_step items w ev = Accordion2_step children w ev"
proof (cases w)
  case (Pair c storage)
  note ids = sameSections_id_set [OF s] sameSections_rendered [OF s]
  show ?thesis
  proof (cases ev)
    case Mount
    with Pair show ?thesis
      by (simp add: Accordion_effects_def Accordion2_effects_def sameSections_reconciled [OF s] Let_def)
  next
    case (SectionButtonClick sid)
    with Pair show ?thesis
      by (simp add: clickTarget_Accordion clickTarget_Accordion2 ids
          saveSectionExpandedState_def saveSectionExpandedState2_def)
  next
    case (BeforeMatch sid)
    with Pair show ?thesis
      by (simp add: listener_Accordion listener_Accordion2 ids
          saveSectionExpandedState_def saveSectionExpandedState2_def)
  next
    case ShowAllClick
    with Pair show ?thesis
      by (simp add: Accordion_render_def AccordionControls_def Accordion2_render_def
          allExpanded_iff allExpanded2_iff ids sameSections_saveAll [OF s] Let_def)
  qed
qed

lemma sameSections_run:
  "sameSections items children \<Longrightarrow> Accordion_run items w evs = Accordion2_run children w evs"
  unfolding Accordion_run_def Accordion2_run_def
  by (induction evs arbitrary: w) (simp_all add: sameSections_step)

lemma sameSections_mount:
  assumes "sameSections items children"
  shows "Accordion_step items (Accordion_initial items, storage) Mount
           = Accordion2_step children (Accordion2_initial children, storage) Mount"
  by (simp add: Accordion_effects_def Accordion2_effects_def Accordion_initial_def
      Accordion2_initial_def sameSections_reconciled [OF assms])


section \<open>The claims\<close>

subsection \<open>C1: the two components side by side\<close>

text \<open>
  The first render already separates the two components: \<^verbatim>\<open>Accordion\<close> starts from
  \<^verbatim>\<open>new Set()\<close>, \<^verbatim>\<open>Accordion2\<close> from the ids of the children whose \<^verbatim>\<open>defaultExpanded\<close>
  is truthy. One section that is expanded by default is enough to tell them apart.
\<close>

theorem C1_initial_render_counterexample:
  "sameSections [itemA] [childA]
   \<and> expandedSectionIds (Accordion_initial [itemA])
       \<noteq> expandedSectionIds (Accordion2_initial [childA])"
  by (simp add: sameSections_def validChildren_def renderedItems_def Accordion_initial_def
      Accordion2_initial_def)

text \<open>
  The sections must also be the same on the side of \<^verbatim>\<open>Accordion2\<close> itself. It counts every
  element among its children (\<^verbatim>\<open>validChildren\<close>) but only an \<^verbatim>\<open>Accordion2Item\<close> renders a
  section: with a \<^verbatim>\<open>div\<close> that carries the props of a section, the ids, headings and hints
  agree with those of the items, yet the section exists in \<^verbatim>\<open>Accordion\<close> alone, and a click
  on its button opens it there and cannot happen in \<^verbatim>\<open>Accordion2\<close>. This is why
  \<open>sameSections\<close> asks that the rendered items be the valid children.
\<close>

lemma foreign_child_is_no_section:
  "map (\<lambda>item. (item_id item, item_heading item, item_defaultExpanded item)) [itemA, itemX]
     = map (\<lambda>child. (props_id child, props_heading child, props_defaultExpanded child))
         (validChildren [childA, divX])
   \<and> ''x'' \<in> expandedSectionIds
        (fst (Accordion_run [itemA, itemX] (Accordion_initial [itemA, itemX], storedB)
               [Mount, SectionButtonClick ''x'']))
   \<and> ''x'' \<notin> expandedSectionIds
        (fst (Accordion2_run [childA, divX] (Accordion2_initial [childA, divX], storedB)
               [Mount, SectionButtonClick ''x'']))"
  by (simp add: validChildren_def renderedItems_def Accordion_run_def Accordion2_run_def
      Accordion_initial_def Accordion2_initial_def Accordion_effects_def Accordion2_effects_def
      Accordion_reconciled_def Accordion2_reconciled_def clickTarget_Accordion
      clickTarget_Accordion2 storageKey_def)

text \<open>
  C1, as amended. For the same sections (the children of \<^verbatim>\<open>Accordion2\<close> being the
  \<^verbatim>\<open>Accordion2Item\<close> elements of those sections, text nodes aside) and the same session
  storage: at the first render
  the expanded set of \<^verbatim>\<open>Accordion\<close> is empty and that of \<^verbatim>\<open>Accordion2\<close> holds the ids of the
  sections whose \<^verbatim>\<open>defaultExpanded\<close> hint is true; until the effects run neither component
  changes its state or writes to storage; and once the effects have run (post-mount
  reconciliation), after any further sequence of section toggles, show-all clicks and
  \<^verbatim>\<open>beforematch\<close> events, the two components have the same \<^verbatim>\<open>hydrated\<close> flag, the same
  expanded set and the same storage contents.
\<close>

theorem C1_same_model_after_mount:
  assumes s: "sameSections items children"
  shows "expandedSectionIds (Accordion_initial items) = {}
    \<and> expandedSectionIds (Accordion2_initial children)
        = set (map item_id (filter (\<lambda>item. item_defaultExpanded item = Some True) items))
    \<and> (Mount \<notin> set evs \<longrightarrow>
          Accordion_run items (Accordion_initial items, storage) evs
            = (Accordion_initial items, storage)
          \<and> Accordion2_run children (Accordion2_initial children, storage) evs
            = (Accordion2_initial children, storage))
    \<and> (Mount \<in> set evs \<longrightarrow>
          Accordion_run items (Accordion_initial items, storage) evs
            = Accordion2_run children (Accordion2_initial children, storage) evs)"
proof (intro conjI impI)
  show "expandedSectionIds (Accordion_initial items) = {}"
    by (simp add: Accordion_initial_def)
  have t: "truthy d = (d = Some True)" for d
    by (cases d) auto
  show "expandedSectionIds (Accordion2_initial children)
        = set (map item_id (filter (\<lambda>item. item_defaultExpanded item = Some True) items))"
    using sameSections_defaults [OF s] by (simp add: Accordion2_initial_def t)
  have h1: "\<not> hydrated (Accordion_initial items)"
    by (simp add: Accordion_initial_def)
  have h2: "\<not> hydrated (Accordion2_initial children)"
    by (simp add: Accordion2_initial_def)
  {
    assume "Mount \<notin> set evs"
    then show "Accordion_run items (Accordion_initial items, storage) evs
            = (Accordion_initial items, storage)"
      and "Accordion2_run children (Accordion2_initial children, storage) evs
            = (Accordion2_initial children, storage)"
      using h1 h2 by (simp_all add: Accordion_run_unmounted Accordion2_run_unmounted)
  }
  assume "Mount \<in> set evs"
  then obtain pre post where evs: "evs = pre @ Mount # post" and pre: "Mount \<notin> set pre"
    by (meson split_list_first)
  have "Accordion_run items (Accordion_initial items, storage) evs
          = Accordion_run items
              (Accordion_step items (Accordion_initial items, storage) Mount) post"
    using Accordion_run_unmounted [OF h1 pre, of items storage]
    by (simp add: evs Accordion_run_def)
  also have "\<dots> = Accordion2_run children
              (Accordion2_step children (Accordion2_initial children, storage) Mount) post"
    by (simp only: sameSections_mount [OF s] sameSections_run [OF s])
  also have "\<dots> = Accordion2_run children (Accordion2_initial children, storage) evs"
    using Accordion2_run_unmounted [OF h2 pre, of children storage]
    by (simp add: evs Accordion2_run_def)
  finally show "Accordion_run items (Accordion_initial items, storage) evs
            = Accordion2_run children (Accordion2_initial children, storage) evs" .
qed

theorem C1_same_model_after_mount_witness:
  "sameSections [itemA, itemB] [childA, ReactText ''between'', childB]
   \<and> Mount \<in> set [Mount, SectionButtonClick ''b'', ShowAllClick]
   \<and> Accordion_run [itemA, itemB] (Accordion_initial [itemA, itemB], storedB)
         [Mount, SectionButtonClick ''b'', ShowAllClick]
     = Accordion2_run [childA, ReactText ''between'', childB]
         (Accordion2_initial [childA, ReactText ''between'', childB], storedB)
         [Mount, SectionButtonClick ''b'', ShowAllClick]"
  using C1_same_model_after_mount
    [where items = "[itemA, itemB]" and children = "[childA, ReactText ''between'', childB]"
       and evs = "[Mount, SectionButtonClick ''b'', ShowAllClick]" and storage = storedB]
  by (simp add: sameSections_def validChildren_def renderedItems_def)

subsection \<open>C2: reconciliation on first mount\<close>

text \<open>
  The set is keyed by id, so two sections that share an id share their membership. With
  the id \<^verbatim>\<open>a\<close> used by a section whose hint is true and by a section with no hint, and no
  flag in storage, the id is in the reconciled set although the flag of the second section is
  absent and its hint is not true.
\<close>

theorem C2_shared_id_counterexample:
  "itemA2 \<in> set [itemA, itemA2]
   \<and> \<not> ((item_id itemA2 \<in> expandedSectionIds
            (fst (Accordion_step [itemA, itemA2]
                    (Accordion_initial [itemA, itemA2], Map.empty) Mount))) =
         (Map.empty (storageKey (item_id itemA2)) = Some ''1'' \<or>
          Map.empty (storageKey (item_id itemA2)) = None
            \<and> item_defaultExpanded itemA2 = Some True))"
  by (simp add: Accordion_initial_def Accordion_effects_def Accordion_reconciled_def)

text \<open>
  C2, as amended. On first interactive mount, for every id, the reconciled set contains the
  id exactly when some section supplied to the component has that id and either the storage
  flag of the id is present and equal to \<^verbatim>\<open>"1"\<close>, or the flag is absent and the
  \<^verbatim>\<open>defaultExpanded\<close> hint of some section with that id is true. A present flag, whatever
  its value, decides alone. When no two sections share an id this is, for every section, the
  condition on the flag and the hint of that section. For \<^verbatim>\<open>Accordion2\<close> the sections
  read are its valid children. Both components are started from their own first render.
\<close>

theorem C2_reconciled_per_id:
  "(sid \<in> expandedSectionIds
      (fst (Accordion_step items (Accordion_initial items, storage) Mount))) =
     (sid \<in> item_id ` set items \<and>
      (storage (storageKey sid) = Some ''1'' \<or>
       storage (storageKey sid) = None \<and>
       (\<exists>item \<in> set items. item_id item = sid \<and> item_defaultExpanded item = Some True)))
   \<and> (sid \<in> expandedSectionIds
      (fst (Accordion2_step children (Accordion2_initial children, storage) Mount))) =
     (sid \<in> props_id ` set (validChildren children) \<and>
      (storage (storageKey sid) = Some ''1'' \<or>
       storage (storageKey sid) = None \<and>
       (\<exists>child \<in> set (validChildren children).
          props_id child = sid \<and> props_defaultExpanded child = Some True)))
   \<and> (distinct (map item_id items) \<longrightarrow>
      (\<forall>item \<in> set items.
         (item_id item \<in> expandedSectionIds
            (fst (Accordion_step items (Accordion_initial items, storage) Mount))) =
         (storage (storageKey (item_id item)) = Some ''1'' \<or>
          storage (storageKey (item_id item)) = None \<and> item_defaultExpanded item = Some True)))
   \<and> (distinct (map props_id (validChildren children)) \<longrightarrow>
      (\<forall>child \<in> set (validChildren children).
         (props_id child \<in> expandedSectionIds
            (fst (Accordion2_step children (Accordion2_initial children, storage) Mount))) =
         (storage (storageKey (props_id child)) = Some ''1'' \<or>
          storage (storageKey (props_id child)) = None \<and> props_defaultExpanded child = Some True)))"
proof (intro conjI impI ballI)
  show "(sid \<in> expandedSectionIds
      (fst (Accordion_step items (Accordion_initial items, storage) Mount))) =
     (sid \<in> item_id ` set items \<and>
      (storage (storageKey sid) = Some ''1'' \<or>
       storage (storageKey sid) = None \<and>
       (\<exists>item \<in> set items. item_id item = sid \<and> item_defaultExpanded item = Some True)))"
    by (auto simp: Accordion_effects_def Accordion_initial_def reconciled_iff)
  show "(sid \<in> expandedSectionIds
      (fst (Accordion2_step children (Accordion2_initial children, storage) Mount))) =
     (sid \<in> props_id ` set (validChildren children) \<and>
      (storage (storageKey sid) = Some ''1'' \<or>
       storage (storageKey sid) = None \<and>
       (\<exists>child \<in> set (validChildren children).
          props_id child = sid \<and> props_defaultExpanded child = Some True)))"
    by (auto simp: Accordion2_effects_def Accordion2_initial_def reconciled2_iff)
next
  fix item
  assume d: "distinct (map item_id items)" and m: "item \<in> set items"
  have "\<And>other. other \<in> set items \<Longrightarrow> item_id other = item_id item \<Longrightarrow> other = item"
    using distinct_ids_unique [OF d _ m] by blast
  then show "(item_id item \<in> expandedSectionIds
            (fst (Accordion_step items (Accordion_initial items, storage) Mount))) =
         (storage (storageKey (item_id item)) = Some ''1'' \<or>
          storage (storageKey (item_id item)) = None \<and> item_defaultExpanded item = Some True)"
    using m by (auto simp: Accordion_effects_def Accordion_initial_def reconciled_iff)
next
  fix child
  assume d: "distinct (map props_id (validChildren children))"
    and m: "child \<in> set (validChildren children)"
  have "\<And>other. other \<in> set (validChildren children) \<Longrightarrow> props_id other = props_id child
          \<Longrightarrow> other = child"
    using distinct_ids_unique [OF d _ m] by blast
  then show "(props_id child \<in> expandedSectionIds
            (fst (Accordion2_step children (Accordion2_initial children, storage) Mount))) =
         (storage (storageKey (props_id child)) = Some ''1'' \<or>
          storage (storageKey (props_id child)) = None \<and> props_defaultExpanded child = Some True)"
    using m by (auto simp: Accordion2_effects_def Accordion2_initial_def reconciled2_iff)
qed

theorem C2_reconciled_per_id_witness:
  "''a'' \<in> expandedSectionIds
        (fst (Accordion_step [itemA, itemA2]
               (Accordion_initial [itemA, itemA2], Map.empty) Mount))
   \<and> ''a'' \<in> expandedSectionIds
        (fst (Accordion2_step [childA, childA2]
               (Accordion2_initial [childA, childA2], Map.empty) Mount))
   \<and> distinct (map item_id [itemA, itemB])
   \<and> itemA \<in> set [itemA, itemB]
   \<and> ''a'' \<notin> expandedSectionIds
        (fst (Accordion_step [itemA, itemB]
               (Accordion_initial [itemA, itemB], [storageKey ''a'' \<mapsto> ''0'']) Mount))
   \<and> ''b'' \<notin> expandedSectionIds
        (fst (Accordion_step [itemA, itemB]
               (Accordion_initial [itemA, itemB], [storageKey ''a'' \<mapsto> ''0'']) Mount))
   \<and> distinct (map props_id (validChildren [childA, childB]))
   \<and> ''a'' \<notin> expandedSectionIds
        (fst (Accordion2_step [childA, childB]
               (Accordion2_initial [childA, childB], [storageKey ''a'' \<mapsto> ''0'']) Mount))
   \<and> ''a'' \<in> expandedSectionIds
        (fst (Accordion_step [itemA, itemB] (Accordion_initial [itemA, itemB], storedB) Mount))
   \<and> ''b'' \<in> expandedSectionIds
        (fst (Accordion_step [itemA, itemB] (Accordion_initial [itemA, itemB], storedB) Mount))
   \<and> ''b'' \<in> expandedSectionIds
        (fst (Accordion2_step [childA, childB]
               (Accordion2_initial [childA, childB], storedB) Mount))"
  using C2_reconciled_per_id
    [where items = "[itemA, itemA2]" and children = "[childA, childA2]"
       and storage = Map.empty and sid = "''a''"]
    C2_reconciled_per_id
    [where items = "[itemA, itemB]" and children = "[childA, childB]"
       and storage = "[storageKey ''a'' \<mapsto> ''0'']" and sid = "''a''"]
    C2_reconciled_per_id
    [where items = "[itemA, itemB]" and children = "[childA, childB]" and storage = storedB
       and sid = "''b''"]
  by (simp add: validChildren_def storageKey_def)

subsection \<open>C3: a toggle updates the set and the flag\<close>

text \<open>
  C3. For every section id and boolean \<open>e\<close>, after \<^verbatim>\<open>setSectionExpandedState(id, e)\<close> (and
  after \<^verbatim>\<open>setSectionState(id, e)\<close> of \<^verbatim>\<open>Accordion2\<close>) the id is in the in-memory expanded set
  exactly when \<open>e\<close> is true, and the storage flag of the id is \<^verbatim>\<open>"1"\<close> when \<open>e\<close> is true and
  \<^verbatim>\<open>"0"\<close> when it is false.
\<close>

theorem C3_toggle_updates_both_stores:
  "(sid \<in> expandedSectionIds (fst (setSectionExpandedState sid e (c, storage)))) = e
   \<and> snd (setSectionExpandedState sid e (c, storage)) (storageKey sid)
       = Some (if e then ''1'' else ''0'')
   \<and> (sid \<in> expandedSectionIds (fst (setSectionState sid e (c, storage)))) = e
   \<and> snd (setSectionState sid e (c, storage)) (storageKey sid)
       = Some (if e then ''1'' else ''0'')"
  by (simp add: saveSectionExpandedState_def saveSectionExpandedState2_def)

theorem C3_toggle_updates_both_stores_witness:
  "''b'' \<notin> expandedSectionIds
     (fst (setSectionExpandedState ''b'' False (hydratedWith {''a'', ''b''}, storedB)))
   \<and> snd (setSectionExpandedState ''b'' False (hydratedWith {''a'', ''b''}, storedB))
        (storageKey ''b'') = Some ''0''
   \<and> ''b'' \<notin> expandedSectionIds
     (fst (setSectionState ''b'' False (hydratedWith {''a'', ''b''}, storedB)))
   \<and> snd (setSectionState ''b'' False (hydratedWith {''a'', ''b''}, storedB))
        (storageKey ''b'') = Some ''0''"
  using C3_toggle_updates_both_stores
    [where sid = "''b''" and e = False and c = "hydratedWith {''a'', ''b''}"
       and storage = storedB]
  by simp

subsection \<open>C4: the state survives a reload\<close>

text \<open>
  C4. For every section and boolean \<open>e\<close>: when a toggle has set the section to \<open>e\<close>, writing
  its storage flag, and the page is reloaded (a fresh component at its first render, the
  same session storage), the first-mount reconciliation has the section expanded exactly
  when \<open>e\<close> is true, whatever the \<^verbatim>\<open>defaultExpanded\<close> hint of the section.
\<close>

theorem C4_state_survives_reload:
  "(\<forall>item \<in> set items.
      (item_id item \<in> expandedSectionIds
         (fst (Accordion_step items
                 (Accordion_initial items,
                  snd (setSectionExpandedState (item_id item) e (c, storage))) Mount))) = e)
   \<and> (\<forall>child \<in> set (validChildren children).
      (props_id child \<in> expandedSectionIds
         (fst (Accordion2_step children
                 (Accordion2_initial children,
                  snd (setSectionState (props_id child) e (c, storage))) Mount))) = e)"
  by (auto simp: Accordion_effects_def Accordion_initial_def reconciled_iff
      Accordion2_effects_def Accordion2_initial_def reconciled2_iff
      saveSectionExpandedState_def saveSectionExpandedState2_def)

theorem C4_state_survives_reload_witness:
  "itemA \<in> set [itemA, itemB]
   \<and> ''a'' \<notin> expandedSectionIds
        (fst (Accordion_step [itemA, itemB]
                (Accordion_initial [itemA, itemB],
                 snd (setSectionExpandedState ''a'' False (hydratedWith {''a''}, storedB)))
                Mount))
   \<and> ''a'' \<notin> expandedSectionIds
        (fst (Accordion2_step [childA, childB]
                (Accordion2_initial [childA, childB],
                 snd (setSectionState ''a'' False (hydratedWith {''a''}, storedB)))
                Mount))"
  using C4_state_survives_reload
    [where items = "[itemA, itemB]" and children = "[childA, childB]" and e = False
       and c = "hydratedWith {''a''}" and storage = storedB]
  by (simp add: validChildren_def)

subsection \<open>C5: rendering is gated on hydration\<close>

text \<open>
  C5. The rendered sections are the items of \<^verbatim>\<open>Accordion\<close>, and in \<^verbatim>\<open>Accordion2\<close> the
  \<^verbatim>\<open>Accordion2Item\<close> elements of the tree of children. For every rendered section: while
  \<^verbatim>\<open>hydrated\<close> is false its heading is the static span, and once \<^verbatim>\<open>hydrated\<close> is true it
  is the toggle button whose \<^verbatim>\<open>aria-expanded\<close> is the membership of the section's id in the
  expanded set. The show-all controls are rendered exactly when \<^verbatim>\<open>hydrated\<close> is true.
\<close>

theorem C5_rendering_gated_on_hydration:
  "map section_content_id (viewSections (Accordion_render items c)) = map item_id items
   \<and> (view_controls (Accordion_render items c) = None) = (\<not> hydrated c)
   \<and> (\<forall>sv \<in> set (viewSections (Accordion_render items c)).
        if hydrated c
        then \<not> isStatic (section_heading sv)
             \<and> ariaExpanded (section_heading sv)
                 = Some (section_content_id sv \<in> expandedSectionIds c)
        else isStatic (section_heading sv))
   \<and> map section_content_id (viewSections (Accordion2_render children c))
        = map props_id (renderedItems children)
   \<and> (view_controls (Accordion2_render children c) = None) = (\<not> hydrated c)
   \<and> (\<forall>sv \<in> set (viewSections (Accordion2_render children c)).
        if hydrated c
        then \<not> isStatic (section_heading sv)
             \<and> ariaExpanded (section_heading sv)
                 = Some (section_content_id sv \<in> expandedSectionIds c)
        else isStatic (section_heading sv))"
proof (intro conjI)
  show "map section_content_id (viewSections (Accordion_render items c)) = map item_id items"
    by (simp add: viewSections_Accordion AccordionSection_def)
  show "(view_controls (Accordion_render items c) = None) = (\<not> hydrated c)"
    by (simp add: Accordion_render_def AccordionControls_def)
  show "\<forall>sv \<in> set (viewSections (Accordion_render items c)).
        if hydrated c
        then \<not> isStatic (section_heading sv)
             \<and> ariaExpanded (section_heading sv)
                 = Some (section_content_id sv \<in> expandedSectionIds c)
        else isStatic (section_heading sv)"
    by (auto simp: viewSections_Accordion AccordionSection_def AccordionHeadingButton_def Let_def)
  show "map section_content_id (viewSections (Accordion2_render children c))
        = map props_id (renderedItems children)"
    by (rule viewSections_Accordion2_ids)
  show "(view_controls (Accordion2_render children c) = None) = (\<not> hydrated c)"
    by (simp add: Accordion2_render_def)
  show "\<forall>sv \<in> set (viewSections (Accordion2_render children c)).
        if hydrated c
        then \<not> isStatic (section_heading sv)
             \<and> ariaExpanded (section_heading sv)
                 = Some (section_content_id sv \<in> expandedSectionIds c)
        else isStatic (section_heading sv)"
  proof
    fix sv
    assume "sv \<in> set (viewSections (Accordion2_render children c))"
    then obtain props kids where "sv = Accordion2Item props kids c"
      using viewSections_Accordion2_items by blast
    then show "if hydrated c
        then \<not> isStatic (section_heading sv)
             \<and> ariaExpanded (section_heading sv)
                 = Some (section_content_id sv \<in> expandedSectionIds c)
        else isStatic (section_heading sv)"
      by (simp add: Accordion2Item_def AccordionHeadingButton2_def Let_def)
  qed
qed

theorem C5_rendering_gated_on_hydration_witness:
  "AccordionSection True ''a-heading'' True itemA
     \<in> set (viewSections (Accordion_render [itemA, itemB] (hydratedWith {''a''})))
   \<and> ariaExpanded (section_heading (AccordionSection True ''a-heading'' True itemA)) = Some True
   \<and> view_controls (Accordion_render [itemA, itemB] (hydratedWith {''a''})) \<noteq> None
   \<and> map section_content_id
        (viewSections (Accordion2_render [divX, wrapperW, childB] (hydratedWith {''a''})))
       = [''a'', ''b'']
   \<and> view_controls (Accordion2_render [divX, wrapperW, childB] (hydratedWith {''a''})) \<noteq> None"
  using C5_rendering_gated_on_hydration
    [where items = "[itemA, itemB]" and children = "[divX, wrapperW, childB]"
       and c = "hydratedWith {''a''}"]
  by (simp add: viewSections_Accordion AccordionSection_def renderedItems_def)

subsection \<open>C6: \<^verbatim>\<open>beforematch\<close> opens a collapsed section\<close>

text \<open>
  C6. Once the effects have run, for every rendered section (an item of \<^verbatim>\<open>Accordion\<close>, an
  \<^verbatim>\<open>Accordion2Item\<close> of the tree of children of \<^verbatim>\<open>Accordion2\<close>): while the section is
  collapsed its content element is marked \<^verbatim>\<open>hidden="until-found"\<close> and carries a
  \<^verbatim>\<open>beforematch\<close> listener, and a \<^verbatim>\<open>beforematch\<close> event sets the section's expanded state to
  true, which adds its id to the expanded set and writes the storage flag \<^verbatim>\<open>"1"\<close>; while
  the section is expanded no \<^verbatim>\<open>beforematch\<close> listener is attached, whatever the earlier
  renders of the section were.
\<close>

theorem C6_beforematch_opens_section:
  "hydrated c \<Longrightarrow>
   (\<forall>item \<in> set items.
      (item_id item \<notin> expandedSectionIds c \<longrightarrow>
         hiddenOf (AccordionSection_element item (history @ [False])) = Some ''until-found''
         \<and> listenerOf (AccordionSection_element item (history @ [False]))
             = Some (item_id item, True)
         \<and> Accordion_step items (c, storage) (BeforeMatch (item_id item))
             = (c\<lparr>expandedSectionIds := insert (item_id item) (expandedSectionIds c)\<rparr>,
                storage(storageKey (item_id item) \<mapsto> ''1'')))
      \<and> (item_id item \<in> expandedSectionIds c \<longrightarrow>
         listenerOf (AccordionSection_element item (history @ [True])) = None
         \<and> Accordion_listener items c (item_id item) = None))
   \<and> (\<forall>child \<in> set (renderedItems children).
      (props_id child \<notin> expandedSectionIds c \<longrightarrow>
         hiddenOf (Accordion2Item_element child (history @ [False])) = Some ''until-found''
         \<and> listenerOf (Accordion2Item_element child (history @ [False]))
             = Some (props_id child, True)
         \<and> Accordion2_step children (c, storage) (BeforeMatch (props_id child))
             = (c\<lparr>expandedSectionIds := insert (props_id child) (expandedSectionIds c)\<rparr>,
                storage(storageKey (props_id child) \<mapsto> ''1'')))
      \<and> (props_id child \<in> expandedSectionIds c \<longrightarrow>
         listenerOf (Accordion2Item_element child (history @ [True])) = None
         \<and> Accordion2_listener children c (props_id child) = None))"
  by (simp add: AccordionSection_element_last Accordion2Item_element_last
      listener_Accordion listener_Accordion2
      saveSectionExpandedState_def saveSectionExpandedState2_def)

theorem C6_beforematch_opens_section_witness:
  "hydrated (hydratedWith {''b''})
   \<and> itemA \<in> set [itemA, itemB]
   \<and> ''a'' \<notin> expandedSectionIds (hydratedWith {''b''})
   \<and> Accordion_step [itemA, itemB] (hydratedWith {''b''}, storedB) (BeforeMatch ''a'')
       = (hydratedWith {''a'', ''b''}, storedB(storageKey ''a'' \<mapsto> ''1''))
   \<and> listenerOf (AccordionSection_element itemB [False, True]) = None
   \<and> Accordion2_step [divX, wrapperW, childB] (hydratedWith {''b''}, storedB) (BeforeMatch ''a'')
       = (hydratedWith {''a'', ''b''}, storedB(storageKey ''a'' \<mapsto> ''1''))
   \<and> Accordion2_listener [divX, wrapperW, childB] (hydratedWith {''b''}) ''b'' = None"
  using C6_beforematch_opens_section
    [where items = "[itemA, itemB]" and children = "[divX, wrapperW, childB]"
       and c = "hydratedWith {''b''}" and storage = storedB and history = "[False]"]
  by (simp add: renderedItems_def)

subsection \<open>C7: a toggle leaves the other sections alone\<close>

text \<open>
  C7. For distinct section ids \<open>id1\<close> and \<open>id2\<close>, \<^verbatim>\<open>setSectionExpandedState(id1, e)\<close> (and
  \<^verbatim>\<open>setSectionState(id1, e)\<close> of \<^verbatim>\<open>Accordion2\<close>) leaves the membership of \<open>id2\<close> in the
  in-memory expanded set and the storage flag of \<open>id2\<close> as they were.
\<close>

theorem C7_toggle_frame:
  "id1 \<noteq> id2 \<Longrightarrow>
     (id2 \<in> expandedSectionIds (fst (setSectionExpandedState id1 e (c, storage))))
       = (id2 \<in> expandedSectionIds c)
   \<and> snd (setSectionExpandedState id1 e (c, storage)) (storageKey id2) = storage (storageKey id2)
   \<and> (id2 \<in> expandedSectionIds (fst (setSectionState id1 e (c, storage))))
       = (id2 \<in> expandedSectionIds c)
   \<and> snd (setSectionState id1 e (c, storage)) (storageKey id2) = storage (storageKey id2)"
  by (auto simp: saveSectionExpandedState_def saveSectionExpandedState2_def storageKey_inj)

theorem C7_toggle_frame_witness:
  "''a'' \<noteq> ''b''
   \<and> ''b'' \<in> expandedSectionIds
        (fst (setSectionExpandedState ''a'' False (hydratedWith {''a'', ''b''}, storedB)))
   \<and> snd (setSectionExpandedState ''a'' False (hydratedWith {''a'', ''b''}, storedB))
        (storageKey ''b'') = Some ''1''
   \<and> ''b'' \<in> expandedSectionIds
        (fst (setSectionState ''a'' False (hydratedWith {''a'', ''b''}, storedB)))
   \<and> snd (setSectionState ''a'' False (hydratedWith {''a'', ''b''}, storedB))
        (storageKey ''b'') = Some ''1''"
  using C7_toggle_frame
    [where ?id1.0 = "''a''" and ?id2.0 = "''b''" and e = False
       and c = "hydratedWith {''a'', ''b''}" and storage = storedB]
  by simp

subsection \<open>C8: the show-all control\<close>

text \<open>
  C8. A click on the rendered show-all control: if the id of every section is in the
  expanded set, it empties the expanded set and writes the storage flag \<^verbatim>\<open>"0"\<close> for every
  section; otherwise it sets the expanded set to exactly the ids of all sections and writes
  the storage flag \<^verbatim>\<open>"1"\<close> for every section.
\<close>

theorem C8_show_all_toggles_globally:
  "hydrated c \<Longrightarrow>
   (if \<forall>item \<in> set items. item_id item \<in> expandedSectionIds c
    then expandedSectionIds (fst (Accordion_step items (c, storage) ShowAllClick)) = {}
         \<and> (\<forall>item \<in> set items.
               snd (Accordion_step items (c, storage) ShowAllClick) (storageKey (item_id item))
                 = Some ''0'')
    else expandedSectionIds (fst (Accordion_step items (c, storage) ShowAllClick))
           = item_id ` set items
         \<and> (\<forall>item \<in> set items.
               snd (Accordion_step items (c, storage) ShowAllClick) (storageKey (item_id item))
                 = Some ''1''))
   \<and> (if \<forall>child \<in> set (validChildren children). props_id child \<in> expandedSectionIds c
    then expandedSectionIds (fst (Accordion2_step children (c, storage) ShowAllClick)) = {}
         \<and> (\<forall>child \<in> set (validChildren children).
               snd (Accordion2_step children (c, storage) ShowAllClick)
                 (storageKey (props_id child)) = Some ''0'')
    else expandedSectionIds (fst (Accordion2_step children (c, storage) ShowAllClick))
           = props_id ` set (validChildren children)
         \<and> (\<forall>child \<in> set (validChildren children).
               snd (Accordion2_step children (c, storage) ShowAllClick)
                 (storageKey (props_id child)) = Some ''1''))"
  by (auto simp: Accordion_render_def AccordionControls_def Accordion2_render_def
      allExpanded_iff allExpanded2_iff saveAll_lookup saveAll2_lookup Let_def)

theorem C8_show_all_toggles_globally_witness:
  "hydrated (hydratedWith {''a''})
   \<and> expandedSectionIds (fst (Accordion_step [itemA, itemB] (hydratedWith {''a''}, storedB)
        ShowAllClick)) = {''a'', ''b''}
   \<and> snd (Accordion_step [itemA, itemB] (hydratedWith {''a''}, storedB) ShowAllClick)
        (storageKey ''a'') = Some ''1''
   \<and> expandedSectionIds (fst (Accordion2_step [childA, childB] (hydratedWith {''a''}, storedB)
        ShowAllClick)) = {''a'', ''b''}
   \<and> snd (Accordion2_step [childA, childB] (hydratedWith {''a''}, storedB) ShowAllClick)
        (storageKey ''b'') = Some ''1''
   \<and> hydrated (hydratedWith {''a'', ''b''})
   \<and> expandedSectionIds (fst (Accordion_step [itemA, itemB]
        (hydratedWith {''a'', ''b''}, storedB) ShowAllClick)) = {}
   \<and> snd (Accordion_step [itemA, itemB] (hydratedWith {''a'', ''b''}, storedB) ShowAllClick)
        (storageKey ''b'') = Some ''0''
   \<and> expandedSectionIds (fst (Accordion2_step [childA, childB]
        (hydratedWith {''a'', ''b''}, storedB) ShowAllClick)) = {}
   \<and> snd (Accordion2_step [childA, childB] (hydratedWith {''a'', ''b''}, storedB) ShowAllClick)
        (storageKey ''a'') = Some ''0''"
  using C8_show_all_toggles_globally
    [where items = "[itemA, itemB]" and children = "[childA, childB]"
       and c = "hydratedWith {''a''}" and storage = storedB]
    C8_show_all_toggles_globally
    [where items = "[itemA, itemB]" and children = "[childA, childB]"
       and c = "hydratedWith {''a'', ''b''}" and storage = storedB]
  by (simp add: validChildren_def)

subsection \<open>C9: no sections\<close>

text \<open>
  C9. With an empty \<^verbatim>\<open>items\<close> array (or no valid children), in every state the component
  reaches: \<^verbatim>\<open>allExpanded\<close> is true, so the show-all control, once hydrated, reads as "Hide
  all sections"; a click on it changes neither the state nor the storage; the expanded set
  is empty and nothing has been written to session storage.
\<close>

theorem C9_no_sections:
  "(let w = Accordion_run [] (Accordion_initial [], storage) evs
    in allExpanded [] (fst w)
       \<and> view_controls (Accordion_render [] (fst w))
           = (if hydrated (fst w) then Some (ShowAllButton True ''Hide all sections'') else None)
       \<and> handleShowAllClick [] w = w
       \<and> Accordion_step [] w ShowAllClick = w
       \<and> expandedSectionIds (fst w) = {}
       \<and> snd w = storage)
   \<and> (validChildren children = [] \<longrightarrow>
       (let w = Accordion2_run children (Accordion2_initial children, storage) evs
        in allExpanded2 children (fst w)
           \<and> view_controls (Accordion2_render children (fst w))
               = (if hydrated (fst w) then Some (ShowAllButton True ''Hide all sections'')
                  else None)
           \<and> handleShowAllClick2 children w = w
           \<and> Accordion2_step children w ShowAllClick = w
           \<and> expandedSectionIds (fst w) = {}
           \<and> snd w = storage))"
proof (intro conjI impI)
  obtain c' where r: "Accordion_run [] (Accordion_initial [], storage) evs = (c', storage)"
    and e: "expandedSectionIds c' = {}"
    using Accordion_run_empty [of "Accordion_initial []" storage evs]
    by (auto simp: Accordion_initial_def)
  have "c'\<lparr>expandedSectionIds := {}\<rparr> = c'"
    using e by (cases c') simp
  then show "let w = Accordion_run [] (Accordion_initial [], storage) evs
    in allExpanded [] (fst w)
       \<and> view_controls (Accordion_render [] (fst w))
           = (if hydrated (fst w) then Some (ShowAllButton True ''Hide all sections'') else None)
       \<and> handleShowAllClick [] w = w
       \<and> Accordion_step [] w ShowAllClick = w
       \<and> expandedSectionIds (fst w) = {}
       \<and> snd w = storage"
    using e
    by (simp add: r Let_def allExpanded_def Accordion_render_def AccordionControls_def
        saveAllSectionExpandedState_def)
next
  assume v: "validChildren children = []"
  obtain c' where r: "Accordion2_run children (Accordion2_initial children, storage) evs
                        = (c', storage)"
    and e: "expandedSectionIds c' = {}"
    using Accordion2_run_empty [OF v, of "Accordion2_initial children" storage evs]
    by (auto simp: Accordion2_initial_def v)
  have "c'\<lparr>expandedSectionIds := {}\<rparr> = c'"
    using e by (cases c') simp
  then show "let w = Accordion2_run children (Accordion2_initial children, storage) evs
        in allExpanded2 children (fst w)
           \<and> view_controls (Accordion2_render children (fst w))
               = (if hydrated (fst w) then Some (ShowAllButton True ''Hide all sections'')
                  else None)
           \<and> handleShowAllClick2 children w = w
           \<and> Accordion2_step children w ShowAllClick = w
           \<and> expandedSectionIds (fst w) = {}
           \<and> snd w = storage"
    using e
    by (simp add: r v Let_def allExpanded2_def Accordion2_render_def AccordionControls2_def
        saveAllSectionExpandedState2_def)
qed

theorem C9_no_sections_witness:
  "validChildren [ReactText ''only text''] = []
   \<and> Accordion_step [] (Accordion_run [] (Accordion_initial [], storedB) [Mount, ShowAllClick])
        ShowAllClick
       = Accordion_run [] (Accordion_initial [], storedB) [Mount, ShowAllClick]
   \<and> snd (Accordion_run [] (Accordion_initial [], storedB) [Mount, ShowAllClick]) = storedB
   \<and> expandedSectionIds
        (fst (Accordion2_run [ReactText ''only text'']
               (Accordion2_initial [ReactText ''only text''], storedB) [Mount, ShowAllClick]))
       = {}
   \<and> snd (Accordion2_run [ReactText ''only text'']
            (Accordion2_initial [ReactText ''only text''], storedB) [Mount, ShowAllClick])
       = storedB"
  using C9_no_sections
    [where children = "[ReactText ''only text'']" and storage = storedB
       and evs = "[Mount, ShowAllClick]"]
  by (simp add: validChildren_def Let_def)

subsection \<open>C10: the expanded ids are section ids\<close>

text \<open>
  In \<^verbatim>\<open>Accordion2\<close> the sections the component counts and the sections it renders can
  differ. With a wrapper as the only child and an \<^verbatim>\<open>Accordion2Item\<close> inside it, the item
  reads the context and its button toggles its id, which is the id of no valid child; the
  show-all control in turn sets the id of the wrapper, which is the id of no rendered
  section. After a section click, a show-all click and a second section click the expanded
  set holds both ids and is contained neither in the ids of the valid children nor in the
  ids of the rendered sections.
\<close>

theorem C10_nested_section_counterexample:
  "\<not> expandedSectionIds
       (fst (Accordion2_run [wrapperW] (Accordion2_initial [wrapperW], storedB)
              [Mount, SectionButtonClick ''a'', ShowAllClick, SectionButtonClick ''a'']))
       \<subseteq> set (map props_id (validChildren [wrapperW]))
   \<and> \<not> expandedSectionIds
       (fst (Accordion2_run [wrapperW] (Accordion2_initial [wrapperW], storedB)
              [Mount, SectionButtonClick ''a'', ShowAllClick, SectionButtonClick ''a'']))
       \<subseteq> set (map props_id (renderedItems [wrapperW]))"
  by (simp add: validChildren_def renderedItems_def Accordion2_run_def Accordion2_initial_def
      Accordion2_effects_def Accordion2_reconciled_def clickTarget_Accordion2
      controls_Accordion2 allExpanded2_def storageKey_def Let_def)

text \<open>
  C10, as amended. In every state the component reaches from its first render (through the
  first-mount reconciliation, toggles from the button or the \<^verbatim>\<open>beforematch\<close> listener of a
  rendered section, and show-all clicks, in any order): in \<^verbatim>\<open>Accordion\<close> the in-memory
  expanded set is a subset of the ids of the items supplied; in \<^verbatim>\<open>Accordion2\<close> it is a subset
  of the ids of the valid children together with the ids of the rendered \<^verbatim>\<open>Accordion2Item\<close>
  sections, hence a subset of the ids of the valid children whenever every rendered section
  has the id of a valid child, as when the children are the sections themselves.
\<close>

theorem C10_expanded_ids_are_section_ids:
  "expandedSectionIds (fst (Accordion_run items (Accordion_initial items, storage) evs))
     \<subseteq> set (map item_id items)
   \<and> expandedSectionIds (fst (Accordion2_run children (Accordion2_initial children, storage) evs))
     \<subseteq> set (map props_id (validChildren children)) \<union> set (map props_id (renderedItems children))
   \<and> (set (map props_id (renderedItems children)) \<subseteq> set (map props_id (validChildren children))
      \<longrightarrow> expandedSectionIds
            (fst (Accordion2_run children (Accordion2_initial children, storage) evs))
          \<subseteq> set (map props_id (validChildren children)))"
proof -
  have a: "expandedSectionIds (fst (Accordion_run items (Accordion_initial items, storage) evs))
     \<subseteq> set (map item_id items)"
    using Accordion_run_subset [of "(Accordion_initial items, storage)" items evs]
    by (simp add: Accordion_initial_def)
  have "expandedSectionIds (Accordion2_initial children)
          \<subseteq> props_id ` set (validChildren children)"
    by (auto simp: Accordion2_initial_def)
  then have b: "expandedSectionIds
       (fst (Accordion2_run children (Accordion2_initial children, storage) evs))
     \<subseteq> set (map props_id (validChildren children)) \<union> set (map props_id (renderedItems children))"
    using Accordion2_run_subset [of "(Accordion2_initial children, storage)" children evs]
    by auto
  from a b show ?thesis by blast
qed

theorem C10_expanded_ids_are_section_ids_witness:
  "expandedSectionIds
     (fst (Accordion_run [itemA, itemB] (Accordion_initial [itemA, itemB], storedB)
            [Mount, SectionButtonClick ''zz'', BeforeMatch ''a'', ShowAllClick]))
     \<subseteq> {''a'', ''b''}
   \<and> set (map props_id (renderedItems [childA, childB]))
       \<subseteq> set (map props_id (validChildren [childA, childB]))
   \<and> expandedSectionIds
     (fst (Accordion2_run [childA, childB] (Accordion2_initial [childA, childB], storedB)
            [Mount, SectionButtonClick ''zz'', BeforeMatch ''a'', ShowAllClick]))
     \<subseteq> {''a'', ''b''}
   \<and> expandedSectionIds
     (fst (Accordion2_run [wrapperW] (Accordion2_initial [wrapperW], storedB)
            [Mount, SectionButtonClick ''a'', ShowAllClick, SectionButtonClick ''a'']))
     \<subseteq> {''a'', ''w''}"
  using C10_expanded_ids_are_section_ids
    [where items = "[itemA, itemB]" and children = "[childA, childB]" and storage = storedB
       and evs = "[Mount, SectionButtonClick ''zz'', BeforeMatch ''a'', ShowAllClick]"]
    C10_expanded_ids_are_section_ids
    [where items = "[itemA, itemB]" and children = "[wrapperW]" and storage = storedB
       and evs = "[Mount, SectionButtonClick ''a'', ShowAllClick, SectionButtonClick ''a'']"]
  by (simp add: validChildren_def renderedItems_def)

end
